theory Spec2Isabelle
  imports
    Main
    "HOL-Library.Char_ord"
    "HOL-Library.List_Lexorder"
    "HOL-Library.Product_Lexorder"
    "HOL-Library.Multiset"
begin

section \<open>Strings and platform facilities\<close>

text \<open>
  Strings are \<^typ>\<open>string\<close>. Case mapping and whitespace are the ASCII ones: JavaScript's
  \<^verbatim>\<open>trim\<close> also strips the Unicode spaces (U+00A0, U+FEFF, U+2028, U+2029 and the
  category Zs) and its \<^verbatim>\<open>toLowerCase\<close> also maps letters beyond A to Z (U+212A to
  \<^verbatim>\<open>k\<close>), so on input with such characters \<open>eventId\<close>, \<open>normalizeHexPubkey\<close>
  and \<open>normalizeDeviceType\<close> answer for the ASCII reading only. SQLite's
  \<^verbatim>\<open>CURRENT_TIMESTAMP\<close> is the argument \<open>now\<close> of every writing operation, a
  \<^typ>\<open>nat\<close> whose order is the chronological order of the stored text. Counters are
  \<^typ>\<open>nat\<close>. The three facilities the service takes from its runtime are collected in a
  record: the \<^verbatim>\<open>URL\<close> constructor (input, optional base; \<open>None\<close> when it throws),
  \<^verbatim>\<open>nip19.decode\<close> of nostr-tools (\<open>None\<close> when it throws) and SQLite's
  \<^verbatim>\<open>date(t, 'localtime')\<close>.
\<close>

type_synonym time = nat

record URL =
  pathname :: string

datatype nip19_data = DataString string | DataOther

record decoded =
  dec_type :: string
  dec_data :: nip19_data

record platform =
  URL_new :: "string \<Rightarrow> string option \<Rightarrow> URL option"
  nip19_decode :: "string \<Rightarrow> decoded option"
  local_date :: "time \<Rightarrow> string"

definition toLowerCase :: "string \<Rightarrow> string" where
  "toLowerCase s =
     map (\<lambda>c. let n = (of_char c :: nat) in if 65 \<le> n \<and> n \<le> 90 then char_of (n + 32) else c) s"

definition is_space :: "char \<Rightarrow> bool" where
  "is_space c = (let n = (of_char c :: nat) in n = 32 \<or> (9 \<le> n \<and> n \<le> 13))"

definition trim :: "string \<Rightarrow> string" where
  "trim s = rev (dropWhile is_space (rev (dropWhile is_space s)))"

definition startsWith :: "string \<Rightarrow> string \<Rightarrow> bool" where
  "startsWith s p = (take (length p) s = p)"

fun str_includes :: "string \<Rightarrow> string \<Rightarrow> bool" where
  "str_includes [] sub = (sub = [])"
| "str_includes (c # cs) sub = (startsWith (c # cs) sub \<or> str_includes cs sub)"

definition orEmpty :: "string option \<Rightarrow> string" where
  "orEmpty x = (case x of None \<Rightarrow> [] | Some s \<Rightarrow> s)"

definition truthy :: "string option \<Rightarrow> bool" where
  "truthy x = (case x of None \<Rightarrow> False | Some s \<Rightarrow> s \<noteq> [])"

section \<open>Data model\<close>

datatype DeviceType = Desktop | Mobile | Tablet | Other

fun device_text :: "DeviceType \<Rightarrow> string" where
  "device_text Desktop = ''desktop''"
| "device_text Mobile = ''mobile''"
| "device_text Tablet = ''tablet''"
| "device_text Other = ''other''"

definition DEVICE_TYPES :: "DeviceType list" where
  "DEVICE_TYPES = [Desktop, Mobile, Tablet, Other]"

text \<open>
  Rows of the three tables. Columns of the same name in different tables carry the table's
  initial (\<open>ps_\<close>, \<open>v_\<close>, \<open>sr_\<close>). The row ids of \<^verbatim>\<open>page_stats\<close> and
  \<^verbatim>\<open>visits\<close> are never read and are left out.
\<close>

record SiteRecord =
  sr_id :: nat
  site_uuid :: string
  sr_name :: "string option"
  owner_npub :: "string option"
  owner_signature :: "string option"
  secret_token :: string
  created_at :: time
  updated_at :: time

record PageStatRow =
  ps_site_id :: nat
  ps_page_path :: string
  ps_device_type :: DeviceType
  visit_count :: nat
  last_seen :: time

record VisitRow =
  v_site_id :: nat
  v_page_path :: string
  v_device_type :: DeviceType
  nostr_event_id :: "string option"
  visited_at :: time

text \<open>
  The database: the three tables in insertion order, and the last id given to a site
  (\<^verbatim>\<open>AUTOINCREMENT\<close> never gives an id twice).
\<close>

record store =
  sites :: "SiteRecord list"
  page_stats :: "PageStatRow list"
  visits :: "VisitRow list"
  sites_seq :: nat

definition empty_store :: store where
  "empty_store = \<lparr>sites = [], page_stats = [], visits = [], sites_seq = 0\<rparr>"

text \<open>The messages of the errors the service throws.\<close>

datatype error =
    SiteNotFound
  | OwnerDoesNotMatchExisting
  | OwnerNpubMismatch
  | UnableToValidateOwner
  | CallerDoesNotMatchOwner

definition is_authorization_error :: "error \<Rightarrow> bool" where
  "is_authorization_error e =
     (e = OwnerNpubMismatch \<or> e = UnableToValidateOwner \<or> e = CallerDoesNotMatchOwner)"

text \<open>The results of the operations.\<close>

record VisitResult =
  r_siteUuid :: string
  r_pagePath :: string
  r_deviceType :: DeviceType
  r_visits :: nat
  r_lastSeen :: "time option"

record PageStats =
  page :: string
  totalVisits :: nat
  devices :: "DeviceType \<Rightarrow> nat"
  lastSeen :: "time option"

record DailyVisits =
  dv_date :: string
  dv_visits :: nat

record PageVisitsByDay =
  pv_page :: string
  pv_days :: "DailyVisits list"

record SiteStats =
  st_uuid :: string
  st_name :: "string option"
  st_ownerNpub :: "string option"
  totals_visits :: nat
  totals_pages :: nat
  pages :: "PageStats list"
  visitsByDay :: "DailyVisits list"
  pageVisitsByDay :: "PageVisitsByDay list"

section \<open>Normalizers\<close>

definition parse_device :: "string \<Rightarrow> DeviceType option" where
  "parse_device s = find (\<lambda>d. device_text d = s) DEVICE_TYPES"

definition normalizeDeviceType :: "string option \<Rightarrow> string option \<Rightarrow> DeviceType" where
  "normalizeDeviceType deviceType userAgent =
     (let input = trim (toLowerCase (orEmpty deviceType)) in
      case parse_device input of
        Some d \<Rightarrow> d
      | None \<Rightarrow>
          (let ua = toLowerCase (orEmpty userAgent) in
           if str_includes ua ''mobile'' then Mobile
           else if str_includes ua ''tablet'' \<or> str_includes ua ''ipad'' then Tablet
           else if ua \<noteq> [] then Desktop
           else Other))"

definition normalizePagePath :: "(string \<Rightarrow> string option \<Rightarrow> URL option) \<Rightarrow> string option \<Rightarrow> string" where
  "normalizePagePath new_URL path =
     (if \<not> truthy path then ''/''
      else
        (let p = orEmpty path in
         case (if startsWith p ''http'' then new_URL p None
               else new_URL p (Some ''http://placeholder'')) of
           Some url \<Rightarrow> (if pathname url = [] then ''/'' else pathname url)
         | None \<Rightarrow> (if startsWith p ''/'' then p else ''/'' @ p)))"

definition is_hex_char :: "char \<Rightarrow> bool" where
  "is_hex_char c =
     (let n = (of_char c :: nat) in
      (48 \<le> n \<and> n \<le> 57) \<or> (97 \<le> n \<and> n \<le> 102) \<or> (65 \<le> n \<and> n \<le> 70))"

definition is_hex64 :: "string \<Rightarrow> bool" where
  "is_hex64 s = (length s = 64 \<and> list_all is_hex_char s)"

definition normalizeHexPubkey :: "(string \<Rightarrow> decoded option) \<Rightarrow> string option \<Rightarrow> string option" where
  "normalizeHexPubkey decode input =
     (if \<not> truthy input then None
      else
        (let v = trim (orEmpty input) in
         if is_hex64 v then Some (toLowerCase v)
         else
           (case decode v of
              None \<Rightarrow> None
            | Some d \<Rightarrow>
                (case dec_data d of
                   DataString h \<Rightarrow> (if dec_type d = ''npub'' then Some (toLowerCase h) else None)
                 | DataOther \<Rightarrow> None))))"

section \<open>Site registry\<close>

definition findSite :: "store \<Rightarrow> string \<Rightarrow> SiteRecord option" where
  "findSite st siteUuid = find (\<lambda>s. site_uuid s = siteUuid) (sites st)"

definition coalesce :: "'a option \<Rightarrow> 'a option \<Rightarrow> 'a option" where
  "coalesce a b = (case a of Some x \<Rightarrow> Some x | None \<Rightarrow> b)"

text \<open>
  The secret token is \<^verbatim>\<open>randomBytes(24).toString("hex")\<close>: the argument
  \<open>secretToken\<close>. The result is the row that \<^verbatim>\<open>findSite\<close> reads back.
\<close>

definition registerSite ::
  "store \<Rightarrow> string \<Rightarrow> string option \<Rightarrow> string \<Rightarrow> string \<Rightarrow> time
     \<Rightarrow> error + (store \<times> SiteRecord option)" where
  "registerSite st siteUuid name ownerNpub secretToken now =
     (case findSite st siteUuid of
        Some existing \<Rightarrow>
          if ownerNpub \<noteq> [] \<and> truthy (owner_npub existing) \<and> owner_npub existing \<noteq> Some ownerNpub
          then Inl OwnerDoesNotMatchExisting
          else
            (let st' = st\<lparr>sites :=
                   map (\<lambda>s. if site_uuid s = siteUuid
                             then s\<lparr>sr_name := coalesce name (sr_name s),
                                    owner_npub := coalesce (Some ownerNpub) (owner_npub s),
                                    updated_at := now\<rparr>
                             else s) (sites st)\<rparr>
             in Inr (st', findSite st' siteUuid))
      | None \<Rightarrow>
          (let row = \<lparr>sr_id = Suc (sites_seq st), site_uuid = siteUuid, sr_name = name,
                      owner_npub = Some ownerNpub, owner_signature = None,
                      secret_token = secretToken, created_at = now, updated_at = now\<rparr>;
               st' = st\<lparr>sites := sites st @ [row], sites_seq := Suc (sites_seq st)\<rparr>
           in Inr (st', findSite st' siteUuid)))"

text \<open>The sites of an owner, newest first; the comparison is of the stored strings. SQL leaves
  the order of rows of equal creation time open; here they stay in the order of insertion.\<close>

definition listSitesForNpub :: "store \<Rightarrow> string \<Rightarrow> SiteRecord list" where
  "listSitesForNpub st npub =
     rev (sort_key created_at (rev (filter (\<lambda>s. owner_npub s = Some npub) (sites st))))"

section \<open>Visit recorder\<close>

definition eventId :: "string option \<Rightarrow> string option" where
  "eventId nostrEventId =
     (let t = trim (orEmpty nostrEventId) in if t = [] then None else Some t)"

definition ps_key :: "PageStatRow \<Rightarrow> nat \<times> string \<times> DeviceType" where
  "ps_key r = (ps_site_id r, ps_page_path r, ps_device_type r)"

definition v_key :: "VisitRow \<Rightarrow> nat \<times> string \<times> DeviceType" where
  "v_key v = (v_site_id v, v_page_path v, v_device_type v)"

text \<open>
  The upsert of \<^verbatim>\<open>page_stats\<close> with its \<^verbatim>\<open>RETURNING\<close> row: the row of the
  triple is incremented and stamped, or a row with count 1 is added.
\<close>

fun upsert_page_stat ::
  "nat \<times> string \<times> DeviceType \<Rightarrow> time \<Rightarrow> PageStatRow list \<Rightarrow> PageStatRow list \<times> PageStatRow" where
  "upsert_page_stat k now [] =
     (let r = \<lparr>ps_site_id = fst k, ps_page_path = fst (snd k), ps_device_type = snd (snd k),
                visit_count = 1, last_seen = now\<rparr>
      in ([r], r))"
| "upsert_page_stat k now (r # rs) =
     (if ps_key r = k
      then (let r' = r\<lparr>visit_count := visit_count r + 1, last_seen := now\<rparr> in (r' # rs, r'))
      else (let (rs', x) = upsert_page_stat k now rs in (r # rs', x)))"

text \<open>
  \<^verbatim>\<open>INSERT OR IGNORE\<close> into \<^verbatim>\<open>visits\<close>: the unique index on
  \<^verbatim>\<open>nostr_event_id\<close> is the only constraint that can reject the row, and NULLs never
  collide. The result is the table and the number of rows changed.
\<close>

definition insert_visit_or_ignore :: "VisitRow \<Rightarrow> VisitRow list \<Rightarrow> VisitRow list \<times> nat" where
  "insert_visit_or_ignore v vs =
     (if nostr_event_id v \<noteq> None \<and> list_ex (\<lambda>w. nostr_event_id w = nostr_event_id v) vs
      then (vs, 0) else (vs @ [v], 1))"

text \<open>The \<^verbatim>\<open>SELECT\<close> of the row of a triple.\<close>

definition select_page_stat :: "store \<Rightarrow> nat \<times> string \<times> DeviceType \<Rightarrow> PageStatRow option" where
  "select_page_stat st k = find (\<lambda>r. ps_key r = k) (page_stats st)"

definition recordVisit ::
  "(string \<Rightarrow> string option \<Rightarrow> URL option) \<Rightarrow> store \<Rightarrow> string \<Rightarrow> string option \<Rightarrow> string option
     \<Rightarrow> string option \<Rightarrow> string option \<Rightarrow> time \<Rightarrow> error + (store \<times> VisitResult)" where
  "recordVisit new_URL st siteUuid pagePath deviceType userAgent nostrEventId now =
     (case findSite st siteUuid of
        None \<Rightarrow> Inl SiteNotFound
      | Some site \<Rightarrow>
          (let pagePath' = normalizePagePath new_URL pagePath;
               deviceType' = normalizeDeviceType deviceType userAgent;
               nostrEventId' = eventId nostrEventId;
               (visits', changes) =
                 insert_visit_or_ignore
                   \<lparr>v_site_id = sr_id site, v_page_path = pagePath', v_device_type = deviceType',
                    nostr_event_id = nostrEventId', visited_at = now\<rparr> (visits st)
           in
             if changes = 0 \<and> nostrEventId' \<noteq> None then
               (case select_page_stat st (sr_id site, pagePath', deviceType') of
                  Some existing \<Rightarrow>
                    Inr (st\<lparr>visits := visits'\<rparr>,
                         \<lparr>r_siteUuid = site_uuid site, r_pagePath = pagePath',
                          r_deviceType = deviceType', r_visits = visit_count existing,
                          r_lastSeen = Some (last_seen existing)\<rparr>)
                | None \<Rightarrow>
                    Inr (st\<lparr>visits := visits'\<rparr>,
                         \<lparr>r_siteUuid = site_uuid site, r_pagePath = pagePath',
                          r_deviceType = deviceType', r_visits = 0, r_lastSeen = None\<rparr>))
             else
               (let (page_stats', record) =
                      upsert_page_stat (sr_id site, pagePath', deviceType') now (page_stats st)
                in Inr (st\<lparr>visits := visits', page_stats := page_stats'\<rparr>,
                        \<lparr>r_siteUuid = site_uuid site, r_pagePath = pagePath',
                         r_deviceType = deviceType', r_visits = visit_count record,
                         r_lastSeen = Some (last_seen record)\<rparr>))))"

section \<open>Stats aggregator\<close>

text \<open>A JavaScript \<^verbatim>\<open>Map\<close>: \<^verbatim>\<open>set\<close> keeps the place of a key that is present and
  appends a new one; \<^verbatim>\<open>values()\<close> lists in that order.\<close>

fun map_set :: "'k \<Rightarrow> 'v \<Rightarrow> ('k \<times> 'v) list \<Rightarrow> ('k \<times> 'v) list" where
  "map_set k v [] = [(k, v)]"
| "map_set k v (p # ps) = (if fst p = k then (k, v) # ps else p # map_set k v ps)"

definition map_get :: "('k \<times> 'v) list \<Rightarrow> 'k \<Rightarrow> 'v option" where
  "map_get m k = map_option snd (find (\<lambda>p. fst p = k) m)"

text \<open>One turn of the loop over the \<^verbatim>\<open>page_stats\<close> rows of the site.\<close>

definition page_step ::
  "(string \<times> PageStats) list \<times> nat \<Rightarrow> PageStatRow \<Rightarrow> (string \<times> PageStats) list \<times> nat" where
  "page_step acc row =
     (let (pageMap, total) = acc;
          existing = (case map_get pageMap (ps_page_path row) of
                        Some e \<Rightarrow> e
                      | None \<Rightarrow> \<lparr>page = ps_page_path row, totalVisits = 0,
                                  devices = (\<lambda>d. 0), lastSeen = None\<rparr>);
          existing' = existing\<lparr>totalVisits := totalVisits existing + visit_count row,
                               devices := (devices existing)(ps_device_type row := visit_count row),
                               lastSeen := Some (last_seen row)\<rparr>
      in (map_set (ps_page_path row) existing' pageMap, total + visit_count row))"

definition page_loop :: "PageStatRow list \<Rightarrow> (string \<times> PageStats) list \<times> nat" where
  "page_loop rows = foldl page_step ([], 0) rows"

text \<open>The three queries of \<^verbatim>\<open>getSiteStats\<close>.\<close>

definition stat_rows :: "store \<Rightarrow> nat \<Rightarrow> PageStatRow list" where
  "stat_rows st sid =
     sort_key (\<lambda>r. (ps_page_path r, device_text (ps_device_type r)))
       (filter (\<lambda>r. ps_site_id r = sid) (page_stats st))"

definition site_visits :: "store \<Rightarrow> nat \<Rightarrow> VisitRow list" where
  "site_visits st sid = filter (\<lambda>v. v_site_id v = sid) (visits st)"

definition visitsByDayRows :: "(time \<Rightarrow> string) \<Rightarrow> store \<Rightarrow> nat \<Rightarrow> (string \<times> nat) list" where
  "visitsByDayRows date st sid =
     (let vs = site_visits st sid in
      map (\<lambda>d. (d, length (filter (\<lambda>v. date (visited_at v) = d) vs)))
        (sort (remdups (map (\<lambda>v. date (visited_at v)) vs))))"

definition pageVisitsByDayRows ::
  "(time \<Rightarrow> string) \<Rightarrow> store \<Rightarrow> nat \<Rightarrow> (string \<times> string \<times> nat) list" where
  "pageVisitsByDayRows date st sid =
     (let vs = site_visits st sid in
      map (\<lambda>(p, d). (p, d, length (filter (\<lambda>v. v_page_path v = p \<and> date (visited_at v) = d) vs)))
        (sort (remdups (map (\<lambda>v. (v_page_path v, date (visited_at v))) vs))))"

definition day_step ::
  "(string \<times> PageVisitsByDay) list \<Rightarrow> string \<times> string \<times> nat \<Rightarrow> (string \<times> PageVisitsByDay) list" where
  "day_step pageDayMap row =
     (let (p, d, n) = row;
          entry = (case map_get pageDayMap p of
                     Some e \<Rightarrow> e
                   | None \<Rightarrow> \<lparr>pv_page = p, pv_days = []\<rparr>);
          entry' = entry\<lparr>pv_days := pv_days entry @ [\<lparr>dv_date = d, dv_visits = n\<rparr>]\<rparr>
      in map_set p entry' pageDayMap)"

definition getSiteStats ::
  "(time \<Rightarrow> string) \<Rightarrow> store \<Rightarrow> string \<Rightarrow> string \<Rightarrow> error + SiteStats" where
  "getSiteStats date st siteUuid npub =
     (case findSite st siteUuid of
        None \<Rightarrow> Inl SiteNotFound
      | Some site \<Rightarrow>
          if truthy (owner_npub site) \<and> owner_npub site \<noteq> Some npub then Inl OwnerNpubMismatch
          else
            (let rows = stat_rows st (sr_id site);
                 (pageMap, total) = page_loop rows;
                 pages' = map snd pageMap;
                 pageDayMap = foldl day_step [] (pageVisitsByDayRows date st (sr_id site))
             in Inr \<lparr>st_uuid = site_uuid site, st_name = sr_name site,
                     st_ownerNpub = owner_npub site,
                     totals_visits = total, totals_pages = length pages',
                     pages = pages',
                     visitsByDay =
                       map (\<lambda>(d, n). \<lparr>dv_date = d, dv_visits = n\<rparr>)
                         (visitsByDayRows date st (sr_id site)),
                     pageVisitsByDay =
                       map (\<lambda>(p, e). e\<lparr>pv_days := sort_key dv_date (pv_days e)\<rparr>) pageDayMap\<rparr>))"

section \<open>Owner-gated operations\<close>

text \<open>
  \<open>name\<close> is \<open>None\<close> when the key \<^verbatim>\<open>name\<close> is not in the parameters, and
  \<open>Some n\<close> with the value to store otherwise.
\<close>

definition updateSiteByOwner ::
  "(string \<Rightarrow> decoded option) \<Rightarrow> store \<Rightarrow> string \<Rightarrow> string \<Rightarrow> string option option \<Rightarrow> time
     \<Rightarrow> error + (store \<times> SiteRecord option)" where
  "updateSiteByOwner decode st siteUuid callerPubkey name now =
     (case findSite st siteUuid of
        None \<Rightarrow> Inl SiteNotFound
      | Some site \<Rightarrow>
          (let ownerHex = normalizeHexPubkey decode (owner_npub site);
               callerHex = normalizeHexPubkey decode (Some callerPubkey)
           in
             if \<not> truthy ownerHex \<or> \<not> truthy callerHex then Inl UnableToValidateOwner
             else if ownerHex \<noteq> callerHex then Inl CallerDoesNotMatchOwner
             else
               (case name of
                  None \<Rightarrow> Inr (st, Some site)
                | Some n \<Rightarrow>
                    (let st' = st\<lparr>sites :=
                           map (\<lambda>s. if site_uuid s = siteUuid
                                     then s\<lparr>sr_name := n, updated_at := now\<rparr> else s) (sites st)\<rparr>
                     in Inr (st', findSite st' siteUuid)))))"

text \<open>Deleting the site row takes its \<^verbatim>\<open>page_stats\<close> and \<^verbatim>\<open>visits\<close> rows with it
  (\<^verbatim>\<open>ON DELETE CASCADE\<close>, foreign keys on).\<close>

definition deleteSiteByOwner ::
  "(string \<Rightarrow> decoded option) \<Rightarrow> store \<Rightarrow> string \<Rightarrow> string \<Rightarrow> error + (store \<times> string \<times> bool)" where
  "deleteSiteByOwner decode st siteUuid callerPubkey =
     (case findSite st siteUuid of
        None \<Rightarrow> Inl SiteNotFound
      | Some site \<Rightarrow>
          (let ownerHex = normalizeHexPubkey decode (owner_npub site);
               callerHex = normalizeHexPubkey decode (Some callerPubkey)
           in
             if \<not> truthy ownerHex \<or> \<not> truthy callerHex then Inl UnableToValidateOwner
             else if ownerHex \<noteq> callerHex then Inl CallerDoesNotMatchOwner
             else
               (let changes = length (filter (\<lambda>s. sr_id s = sr_id site) (sites st));
                    st' = st\<lparr>sites := filter (\<lambda>s. sr_id s \<noteq> sr_id site) (sites st),
                             page_stats := filter (\<lambda>r. ps_site_id r \<noteq> sr_id site) (page_stats st),
                             visits := filter (\<lambda>v. v_site_id v \<noteq> sr_id site) (visits st)\<rparr>
                in Inr (st', siteUuid, changes > 0))))"

section \<open>Histories of operations\<close>

text \<open>
  The operations that write, with their arguments. An operation that throws leaves the store
  as it was; \<^verbatim>\<open>listSitesForNpub\<close> and \<^verbatim>\<open>getSiteStats\<close> only read.
\<close>

datatype op =
    RegisterSite string "string option" string string time
  | RecordVisit string "string option" "string option" "string option" "string option" time
  | UpdateSite string string "string option option" time
  | DeleteSite string string

definition after :: "store \<Rightarrow> error + (store \<times> 'a) \<Rightarrow> store" where
  "after st r = (case r of Inl e \<Rightarrow> st | Inr (st', x) \<Rightarrow> st')"

fun exec :: "platform \<Rightarrow> store \<Rightarrow> op \<Rightarrow> store" where
  "exec P st (RegisterSite u n ow tok now) = after st (registerSite st u n ow tok now)"
| "exec P st (RecordVisit u pp dt ua ev now) = after st (recordVisit (URL_new P) st u pp dt ua ev now)"
| "exec P st (UpdateSite u c n now) = after st (updateSiteByOwner (nip19_decode P) st u c n now)"
| "exec P st (DeleteSite u c) = after st (deleteSiteByOwner (nip19_decode P) st u c)"

definition run :: "platform \<Rightarrow> op list \<Rightarrow> store" where
  "run P ops = foldl (exec P) empty_store ops"

section \<open>Consistency of the counters with the visit history\<close>

text \<open>
  The count a triple has in \<^verbatim>\<open>page_stats\<close> (0 without a row), the sum of the counts of
  a site, and the invariant that ties both to the rows of \<^verbatim>\<open>visits\<close>.
\<close>

definition cell :: "PageStatRow list \<Rightarrow> nat \<times> string \<times> DeviceType \<Rightarrow> nat" where
  "cell rs k = (case find (\<lambda>r. ps_key r = k) rs of None \<Rightarrow> 0 | Some r \<Rightarrow> visit_count r)"

definition site_sum :: "PageStatRow list \<Rightarrow> nat \<Rightarrow> nat" where
  "site_sum rs sid = sum_list (map visit_count (filter (\<lambda>r. ps_site_id r = sid) rs))"

definition consistent :: "store \<Rightarrow> bool" where
  "consistent st =
     (distinct (map ps_key (page_stats st)) \<and>
      (\<forall>k. cell (page_stats st) k = length (filter (\<lambda>v. v_key v = k) (visits st))) \<and>
      (\<forall>sid. site_sum (page_stats st) sid = length (filter (\<lambda>v. v_site_id v = sid) (visits st))))"

section \<open>The comparison of two identities\<close>

text \<open>Two identities name the same key: both normalize, to the same non-empty string.\<close>

definition same_key :: "(string \<Rightarrow> decoded option) \<Rightarrow> string option \<Rightarrow> string \<Rightarrow> bool" where
  "same_key dec owner caller =
     (truthy (normalizeHexPubkey dec owner) \<and>
      normalizeHexPubkey dec owner = normalizeHexPubkey dec (Some caller))"

section \<open>Concrete platform and histories\<close>

text \<open>
  The instances below run on a platform that answers the inputs they use as the runtime
  does: \<^verbatim>\<open>new URL("/home", "http://placeholder").pathname\<close> is \<^verbatim>\<open>/home\<close>, and so is
  that of the relative \<^verbatim>\<open>home\<close>,
  \<^verbatim>\<open>new URL("mailto:a", "http://placeholder").pathname\<close> is \<^verbatim>\<open>a\<close> (a URL with an
  opaque path), and \<^verbatim>\<open>nip19.decode\<close> maps the npub of NIP-19's example to its key.
\<close>

definition example_hex :: string where
  "example_hex = ''3bf0c63fcb93463407af97a5e5ee64fa883d107ef9e558472c4eb9aaaefa459d''"

definition example_npub :: string where
  "example_npub = ''npub180cvv07tjdrrgpa0j7j7tmnyl2yr6yr7l8j4s3evf6u64th6gkwsyjh6w6''"

definition example_platform :: platform where
  "example_platform =
     \<lparr>URL_new = (\<lambda>input base.
         if input = ''/home'' \<and> base = Some ''http://placeholder'' then Some \<lparr>pathname = ''/home''\<rparr>
         else if input = ''/blog'' \<and> base = Some ''http://placeholder'' then Some \<lparr>pathname = ''/blog''\<rparr>
         else if input = ''home'' \<and> base = Some ''http://placeholder'' then Some \<lparr>pathname = ''/home''\<rparr>
         else if input = ''mailto:a'' \<and> base = Some ''http://placeholder'' then Some \<lparr>pathname = ''a''\<rparr>
         else None),
       nip19_decode = (\<lambda>s.
         if s = example_npub then Some \<lparr>dec_type = ''npub'', dec_data = DataString example_hex\<rparr>
         else None),
       local_date = (\<lambda>t. ''2026-01-01'')\<rparr>"

text \<open>
  The scenario of the specification: a site, three visits to \<^verbatim>\<open>/home\<close> from a desktop, the
  first carrying the event identifier \<^verbatim>\<open>ev1\<close>, and a fourth delivery of \<^verbatim>\<open>ev1\<close>.
\<close>

definition example_history :: "op list" where
  "example_history =
     [RegisterSite ''abc12345'' None ''ownerX'' ''5ec2e7'' 0,
      RecordVisit ''abc12345'' (Some ''/home'') (Some ''desktop'') None (Some ''ev1'') 1,
      RecordVisit ''abc12345'' (Some ''/home'') (Some ''desktop'') None None 2,
      RecordVisit ''abc12345'' (Some ''/home'') (Some ''desktop'') None None 3,
      RecordVisit ''abc12345'' (Some ''/home'') (Some ''desktop'') None (Some ''ev1'') 4]"

definition example_store :: store where
  "example_store = run example_platform example_history"

text \<open>
  Two sites: the event \<^verbatim>\<open>ev1\<close> is the first of three visits to \<^verbatim>\<open>/home\<close> of the first
  site, from a desktop; the second site has two visits to \<^verbatim>\<open>/blog\<close>, from a mobile.
\<close>

definition two_sites_history :: "op list" where
  "two_sites_history =
     [RegisterSite ''abc12345'' None ''ownerX'' ''5ec2e7'' 0,
      RegisterSite ''def67890'' None ''ownerY'' ''c0ffee'' 1,
      RecordVisit ''abc12345'' (Some ''/home'') (Some ''desktop'') None (Some ''ev1'') 2,
      RecordVisit ''abc12345'' (Some ''/home'') (Some ''desktop'') None None 3,
      RecordVisit ''abc12345'' (Some ''/home'') (Some ''desktop'') None None 4,
      RecordVisit ''def67890'' (Some ''/blog'') (Some ''mobile'') None None 5,
      RecordVisit ''def67890'' (Some ''/blog'') (Some ''mobile'') None None 6]"

definition two_sites_store :: store where
  "two_sites_store = run example_platform two_sites_history"

section \<open>Properties of the visit recorder\<close>

lemma insert_visit_duplicate:
  assumes "nostr_event_id v = Some e" and "\<exists>w\<in>set vs. nostr_event_id w = Some e"
  shows "insert_visit_or_ignore v vs = (vs, 0)"
  using assms by (auto simp: insert_visit_or_ignore_def list_ex_iff)

lemma insert_visit_fresh:
  assumes "nostr_event_id v = None \<or> (\<forall>w\<in>set vs. nostr_event_id w \<noteq> nostr_event_id v)"
  shows "insert_visit_or_ignore v vs = (vs @ [v], 1)"
  using assms by (auto simp: insert_visit_or_ignore_def list_ex_iff)

text \<open>What a call does when its event identifier is already stored.\<close>

lemma recordVisit_duplicate:
  assumes site: "findSite st u = Some site"
    and ev: "eventId ev = Some e"
    and dup: "\<exists>w\<in>set (visits st). nostr_event_id w = Some e"
  shows "recordVisit U st u pp dt ua ev now =
     Inr (st, \<lparr>r_siteUuid = site_uuid site, r_pagePath = normalizePagePath U pp,
               r_deviceType = normalizeDeviceType dt ua,
               r_visits = (case select_page_stat st (sr_id site, normalizePagePath U pp, normalizeDeviceType dt ua) of
                             Some x \<Rightarrow> visit_count x | None \<Rightarrow> 0),
               r_lastSeen = map_option last_seen
                  (select_page_stat st (sr_id site, normalizePagePath U pp, normalizeDeviceType dt ua))\<rparr>)"
proof -
  let ?v = "\<lparr>v_site_id = sr_id site, v_page_path = normalizePagePath U pp,
             v_device_type = normalizeDeviceType dt ua, nostr_event_id = Some e, visited_at = now\<rparr>"
  have ins: "insert_visit_or_ignore ?v (visits st) = (visits st, 0)"
    by (rule insert_visit_duplicate[OF _ dup]) simp
  show ?thesis
    unfolding recordVisit_def
    by (simp add: site ev ins Let_def split: option.split)
qed

lemma upsert_returns_row:
  "upsert_page_stat k now rs = (rs', x) \<Longrightarrow> find (\<lambda>r. ps_key r = k) rs' = Some x"
proof (induction rs arbitrary: rs' x)
  case Nil
  then show ?case by (auto simp: ps_key_def Let_def)
next
  case (Cons r rs)
  show ?case
  proof (cases "ps_key r = k")
    case True
    with Cons.prems show ?thesis by (auto simp: ps_key_def Let_def)
  next
    case False
    obtain rs0 x0 where u: "upsert_page_stat k now rs = (rs0, x0)" by (cases "upsert_page_stat k now rs")
    with False Cons.prems have "rs' = r # rs0" "x = x0" by auto
    with False Cons.IH[OF u] show ?thesis by simp
  qed
qed

text \<open>What a call does when its event identifier is absent or new.\<close>

lemma recordVisit_fresh:
  assumes site: "findSite st u = Some site"
    and fresh: "eventId ev = None \<or> (\<forall>w\<in>set (visits st). nostr_event_id w \<noteq> eventId ev)"
    and ups: "upsert_page_stat (sr_id site, normalizePagePath U pp, normalizeDeviceType dt ua) now (page_stats st) = (rs', x)"
  shows "recordVisit U st u pp dt ua ev now =
     Inr (st\<lparr>visits := visits st @ [\<lparr>v_site_id = sr_id site, v_page_path = normalizePagePath U pp,
                 v_device_type = normalizeDeviceType dt ua, nostr_event_id = eventId ev, visited_at = now\<rparr>],
              page_stats := rs'\<rparr>,
          \<lparr>r_siteUuid = site_uuid site, r_pagePath = normalizePagePath U pp,
           r_deviceType = normalizeDeviceType dt ua,
           r_visits = visit_count x, r_lastSeen = Some (last_seen x)\<rparr>)"
proof -
  let ?v = "\<lparr>v_site_id = sr_id site, v_page_path = normalizePagePath U pp,
             v_device_type = normalizeDeviceType dt ua, nostr_event_id = eventId ev, visited_at = now\<rparr>"
  have ins: "insert_visit_or_ignore ?v (visits st) = (visits st @ [?v], 1)"
    by (rule insert_visit_fresh) (use fresh in auto)
  show ?thesis
    unfolding recordVisit_def
    by (simp add: site ins ups Let_def)
qed

text \<open>
  C2. A call of \<^verbatim>\<open>recordVisit\<close> whose trimmed event identifier is that of a stored visit
  leaves the whole store as it was: no row of \<^verbatim>\<open>visits\<close> is added and no row of
  \<^verbatim>\<open>page_stats\<close> is created or changed. Where the site resolves the call returns a result,
  with that same store; where it does not the call throws before touching the store.
\<close>

theorem recordVisit_duplicate_unchanged:
  assumes "eventId ev = Some e" and "\<exists>w\<in>set (visits st). nostr_event_id w = Some e"
  shows "after st (recordVisit U st u pp dt ua ev now) = st \<and>
         (findSite st u \<noteq> None \<longrightarrow> (\<exists>r. recordVisit U st u pp dt ua ev now = Inr (st, r)))"
proof (cases "findSite st u")
  case None
  then show ?thesis by (simp add: recordVisit_def after_def)
next
  case (Some site)
  from recordVisit_duplicate[OF Some assms] show ?thesis
    by (simp add: after_def Some)
qed

theorem recordVisit_duplicate_unchanged_witness:
  "eventId (Some '' ev1 '') = Some ''ev1'' \<and>
   (\<exists>w\<in>set (visits example_store). nostr_event_id w = Some ''ev1'') \<and>
   findSite example_store ''abc12345'' \<noteq> None \<and>
   after example_store
     (recordVisit (URL_new example_platform) example_store ''abc12345'' (Some ''/home'')
        (Some ''desktop'') None (Some '' ev1 '') 5) = example_store \<and>
   (\<exists>r. recordVisit (URL_new example_platform) example_store ''abc12345'' (Some ''/home'')
        (Some ''desktop'') None (Some '' ev1 '') 5 = Inr (example_store, r))"
proof -
  have e: "eventId (Some '' ev1 '') = Some ''ev1''" by code_simp
  have d: "\<exists>w\<in>set (visits example_store). nostr_event_id w = Some ''ev1''" by code_simp
  have s: "findSite example_store ''abc12345'' \<noteq> None" by code_simp
  from recordVisit_duplicate_unchanged[OF e d] s e d show ?thesis by blast
qed

lemma distinct_find_key:
  "distinct (map ps_key rs) \<Longrightarrow> r \<in> set rs \<Longrightarrow> find (\<lambda>x. ps_key x = ps_key r) rs = Some r"
  by (induction rs) (auto simp: image_iff)

text \<open>
  C3, as the code has it. Recording the same (site, event identifier) pair twice, the
  identifier non-blank, with page path and device inputs that normalize to the same page path
  and device type, returns the same visit count (and the same last-seen time) both times,
  whatever the clock shows at the second call; both calls return, and the second leaves the
  store as the first left it.
\<close>

theorem recordVisit_idempotent:
  assumes "findSite st u \<noteq> None" and "eventId ev1 \<noteq> None"
    and "eventId ev2 = eventId ev1"
    and "normalizePagePath U pp2 = normalizePagePath U pp1"
    and "normalizeDeviceType dt2 ua2 = normalizeDeviceType dt1 ua1"
  shows "\<exists>st1 r1 r2.
           recordVisit U st u pp1 dt1 ua1 ev1 now1 = Inr (st1, r1) \<and>
           recordVisit U st1 u pp2 dt2 ua2 ev2 now2 = Inr (st1, r2) \<and>
           r_visits r2 = r_visits r1 \<and> r_lastSeen r2 = r_lastSeen r1"
proof -
  from assms(1,2) obtain site e where site: "findSite st u = Some site" and ev: "eventId ev1 = Some e"
    by auto
  from ev assms(3) have ev': "eventId ev2 = Some e" by simp
  let ?k = "(sr_id site, normalizePagePath U pp1, normalizeDeviceType dt1 ua1)"
  show ?thesis
  proof (cases "\<exists>w\<in>set (visits st). nostr_event_id w = Some e")
    case True
    from recordVisit_duplicate[OF site ev True, of U pp1 dt1 ua1 now1]
      recordVisit_duplicate[OF site ev' True, of U pp2 dt2 ua2 now2]
    show ?thesis by (simp add: assms(4,5))
  next
    case False
    obtain rs' x where ups: "upsert_page_stat ?k now1 (page_stats st) = (rs', x)"
      by (cases "upsert_page_stat ?k now1 (page_stats st)")
    let ?v = "\<lparr>v_site_id = sr_id site, v_page_path = normalizePagePath U pp1,
               v_device_type = normalizeDeviceType dt1 ua1, nostr_event_id = eventId ev1, visited_at = now1\<rparr>"
    let ?st1 = "st\<lparr>visits := visits st @ [?v], page_stats := rs'\<rparr>"
    have fresh: "eventId ev1 = None \<or> (\<forall>w\<in>set (visits st). nostr_event_id w \<noteq> eventId ev1)"
      using False ev by auto
    note first = recordVisit_fresh[OF site fresh ups]
    have site1: "findSite ?st1 u = Some site"
      using site by (simp add: findSite_def)
    have dup1: "\<exists>w\<in>set (visits ?st1). nostr_event_id w = Some e"
      using ev by simp
    have sel: "select_page_stat ?st1 ?k = Some x"
      using upsert_returns_row[OF ups] by (simp add: select_page_stat_def)
    note second = recordVisit_duplicate[OF site1 ev' dup1, of U pp2 dt2 ua2 now2]
    show ?thesis
      apply (rule exI[of _ ?st1])
      apply (intro exI conjI)
         apply (rule first)
        apply (rule second)
       apply (simp_all add: sel assms(4,5))
      done
  qed
qed

text \<open>The second delivery writes the identifier, the path and the device label otherwise.\<close>

theorem recordVisit_idempotent_witness:
  "findSite (run example_platform [RegisterSite ''abc12345'' None ''ownerX'' ''5ec2e7'' 0]) ''abc12345'' \<noteq> None \<and>
   eventId (Some ''ev1'') \<noteq> None \<and>
   eventId (Some '' ev1 '') = eventId (Some ''ev1'') \<and>
   normalizePagePath (URL_new example_platform) (Some ''home'') =
     normalizePagePath (URL_new example_platform) (Some ''/home'') \<and>
   normalizeDeviceType (Some ''DESKTOP'') None = normalizeDeviceType (Some ''desktop'') None \<and>
   (\<exists>st1 r1 r2.
      recordVisit (URL_new example_platform)
        (run example_platform [RegisterSite ''abc12345'' None ''ownerX'' ''5ec2e7'' 0])
        ''abc12345'' (Some ''/home'') (Some ''desktop'') None (Some ''ev1'') 1 = Inr (st1, r1) \<and>
      recordVisit (URL_new example_platform) st1
        ''abc12345'' (Some ''home'') (Some ''DESKTOP'') None (Some '' ev1 '') 2 = Inr (st1, r2) \<and>
      r_visits r2 = r_visits r1 \<and> r_lastSeen r2 = r_lastSeen r1)"
proof -
  have s: "findSite (run example_platform [RegisterSite ''abc12345'' None ''ownerX'' ''5ec2e7'' 0]) ''abc12345'' \<noteq> None"
    by code_simp
  have e: "eventId (Some ''ev1'') \<noteq> None" by code_simp
  have e2: "eventId (Some '' ev1 '') = eventId (Some ''ev1'')" by code_simp
  have p: "normalizePagePath (URL_new example_platform) (Some ''home'') =
     normalizePagePath (URL_new example_platform) (Some ''/home'')" by code_simp
  have d: "normalizeDeviceType (Some ''DESKTOP'') None = normalizeDeviceType (Some ''desktop'') None"
    by code_simp
  from recordVisit_idempotent[OF s e e2 p d] s e e2 p d show ?thesis by blast
qed

text \<open>
  C3, the claim refuted: the same (site, event identifier) pair recorded for \<^verbatim>\<open>/home\<close> and
  then for \<^verbatim>\<open>/blog\<close>. The first call returns the visit count 1; the second, on the store
  the first has left, returns 0.
\<close>

theorem recordVisit_same_pair_counterexample:
  "map_sum id (\<lambda>x. r_visits (snd x))
     (recordVisit (URL_new example_platform)
        (run example_platform [RegisterSite ''abc12345'' None ''ownerX'' ''5ec2e7'' 0])
        ''abc12345'' (Some ''/home'') (Some ''desktop'') None (Some ''ev1'') 1) = Inr 1 \<and>
   map_sum id (\<lambda>x. r_visits (snd x))
     (recordVisit (URL_new example_platform)
        (after (run example_platform [RegisterSite ''abc12345'' None ''ownerX'' ''5ec2e7'' 0])
           (recordVisit (URL_new example_platform)
              (run example_platform [RegisterSite ''abc12345'' None ''ownerX'' ''5ec2e7'' 0])
              ''abc12345'' (Some ''/home'') (Some ''desktop'') None (Some ''ev1'') 1))
        ''abc12345'' (Some ''/blog'') (Some ''desktop'') None (Some ''ev1'') 2) = Inr 0"
  by code_simp

lemma find_no_row:
  "(\<forall>r\<in>set rs. ps_key r \<noteq> k) \<Longrightarrow> find (\<lambda>r. ps_key r = k) rs = None"
  by (induction rs) auto

text \<open>
  C10. When the event identifier of a call is already stored, under whatever site, page path
  and device type the first delivery was recorded, the call changes nothing and reports the
  counter of the triple it was called with: the page path and device type normalized from its
  own arguments, the visit count and last-seen time of the \<^verbatim>\<open>page_stats\<close> row of that
  triple, and 0 and null when that triple has no row. The rows are unique in their triple, as
  the table's \<^verbatim>\<open>UNIQUE\<close> constraint has it.
\<close>

theorem recordVisit_duplicate_reports_supplied_triple:
  assumes "findSite st u = Some site"
    and "eventId ev = Some e"
    and "w \<in> set (visits st)" and "nostr_event_id w = Some e"
    and "distinct (map (\<lambda>r. (ps_site_id r, ps_page_path r, ps_device_type r)) (page_stats st))"
  shows "\<exists>r. recordVisit U st u pp dt ua ev now = Inr (st, r) \<and>
           r_siteUuid r = site_uuid site \<and>
           r_pagePath r = normalizePagePath U pp \<and>
           r_deviceType r = normalizeDeviceType dt ua \<and>
           (\<forall>row\<in>set (page_stats st).
              ps_site_id row = sr_id site \<and> ps_page_path row = normalizePagePath U pp \<and>
              ps_device_type row = normalizeDeviceType dt ua \<longrightarrow>
              r_visits r = visit_count row \<and> r_lastSeen r = Some (last_seen row)) \<and>
           ((\<forall>row\<in>set (page_stats st).
               \<not> (ps_site_id row = sr_id site \<and> ps_page_path row = normalizePagePath U pp \<and>
                  ps_device_type row = normalizeDeviceType dt ua)) \<longrightarrow>
              r_visits r = 0 \<and> r_lastSeen r = None)"
proof -
  let ?k = "(sr_id site, normalizePagePath U pp, normalizeDeviceType dt ua)"
  from assms(3,4) have dup: "\<exists>w\<in>set (visits st). nostr_event_id w = Some e" by blast
  note rv = recordVisit_duplicate[OF assms(1,2) dup, of U pp dt ua now]
  have keys: "(\<lambda>r. (ps_site_id r, ps_page_path r, ps_device_type r)) = ps_key"
    by (rule ext) (simp add: ps_key_def)
  from assms(5) have d: "distinct (map ps_key (page_stats st))" by (simp only: keys)
  have hit: "select_page_stat st ?k = Some row"
    if "row \<in> set (page_stats st)" and "ps_key row = ?k" for row
    using distinct_find_key[OF d that(1)] that(2) by (simp add: select_page_stat_def)
  have miss: "select_page_stat st ?k = None"
    if "\<forall>row\<in>set (page_stats st). ps_key row \<noteq> ?k"
    using find_no_row[OF that] by (simp add: select_page_stat_def)
  show ?thesis
  proof (intro exI conjI)
    show "recordVisit U st u pp dt ua ev now = Inr (st, snd (projr (recordVisit U st u pp dt ua ev now)))"
      by (simp add: rv)
  next
    show "\<forall>row\<in>set (page_stats st).
              ps_site_id row = sr_id site \<and> ps_page_path row = normalizePagePath U pp \<and>
              ps_device_type row = normalizeDeviceType dt ua \<longrightarrow>
              r_visits (snd (projr (recordVisit U st u pp dt ua ev now))) = visit_count row \<and>
              r_lastSeen (snd (projr (recordVisit U st u pp dt ua ev now))) = Some (last_seen row)"
    proof (intro ballI impI)
      fix row assume "row \<in> set (page_stats st)"
        and "ps_site_id row = sr_id site \<and> ps_page_path row = normalizePagePath U pp \<and>
              ps_device_type row = normalizeDeviceType dt ua"
      then have "select_page_stat st ?k = Some row" by (intro hit) (simp_all add: ps_key_def)
      then show "r_visits (snd (projr (recordVisit U st u pp dt ua ev now))) = visit_count row \<and>
              r_lastSeen (snd (projr (recordVisit U st u pp dt ua ev now))) = Some (last_seen row)"
        by (simp add: rv)
    qed
  next
    show "(\<forall>row\<in>set (page_stats st).
               \<not> (ps_site_id row = sr_id site \<and> ps_page_path row = normalizePagePath U pp \<and>
                  ps_device_type row = normalizeDeviceType dt ua)) \<longrightarrow>
              r_visits (snd (projr (recordVisit U st u pp dt ua ev now))) = 0 \<and>
              r_lastSeen (snd (projr (recordVisit U st u pp dt ua ev now))) = None"
    proof
      assume "\<forall>row\<in>set (page_stats st).
               \<not> (ps_site_id row = sr_id site \<and> ps_page_path row = normalizePagePath U pp \<and>
                  ps_device_type row = normalizeDeviceType dt ua)"
      then have "\<forall>row\<in>set (page_stats st). ps_key row \<noteq> ?k" by (simp add: ps_key_def)
      then have "select_page_stat st ?k = None" by (rule miss)
      then show "r_visits (snd (projr (recordVisit U st u pp dt ua ev now))) = 0 \<and>
              r_lastSeen (snd (projr (recordVisit U st u pp dt ua ev now))) = None"
        by (simp add: rv)
    qed
  qed (simp_all add: rv)
qed

text \<open>
  The event \<^verbatim>\<open>ev1\<close> was recorded for \<^verbatim>\<open>/home\<close> of the first site, from a desktop, whose
  counter is 3 and was last seen at 4. Its redelivery for \<^verbatim>\<open>/blog\<close> of the second site, from
  a mobile, reports the counter of that triple, 2 and last seen at 6; its redelivery for
  \<^verbatim>\<open>/home\<close> of the second site, which has no row, reports 0 and null.
\<close>

theorem recordVisit_duplicate_reports_supplied_triple_witness:
  "findSite two_sites_store ''def67890'' =
     Some \<lparr>sr_id = 2, site_uuid = ''def67890'', sr_name = None, owner_npub = Some ''ownerY'',
           owner_signature = None, secret_token = ''c0ffee'', created_at = 1, updated_at = 1\<rparr> \<and>
   eventId (Some ''ev1'') = Some ''ev1'' \<and>
   hd (visits two_sites_store) =
     \<lparr>v_site_id = 1, v_page_path = ''/home'', v_device_type = Desktop,
      nostr_event_id = Some ''ev1'', visited_at = 2\<rparr> \<and>
   page_stats two_sites_store =
     [\<lparr>ps_site_id = 1, ps_page_path = ''/home'', ps_device_type = Desktop,
       visit_count = 3, last_seen = 4\<rparr>,
      \<lparr>ps_site_id = 2, ps_page_path = ''/blog'', ps_device_type = Mobile,
       visit_count = 2, last_seen = 6\<rparr>] \<and>
   (\<exists>r. recordVisit (URL_new example_platform) two_sites_store ''def67890'' (Some ''/blog'')
           (Some ''mobile'') None (Some ''ev1'') 9 = Inr (two_sites_store, r) \<and>
        r_siteUuid r = ''def67890'' \<and> r_pagePath r = ''/blog'' \<and> r_deviceType r = Mobile \<and>
        r_visits r = 2 \<and> r_lastSeen r = Some 6) \<and>
   (\<exists>r. recordVisit (URL_new example_platform) two_sites_store ''def67890'' (Some ''/home'')
           (Some ''desktop'') None (Some ''ev1'') 9 = Inr (two_sites_store, r) \<and>
        r_pagePath r = ''/home'' \<and> r_deviceType r = Desktop \<and>
        r_visits r = 0 \<and> r_lastSeen r = None)"
proof -
  let ?site = "\<lparr>sr_id = 2, site_uuid = ''def67890'', sr_name = None, owner_npub = Some ''ownerY'',
           owner_signature = None, secret_token = ''c0ffee'', created_at = 1, updated_at = 1\<rparr>"
  let ?w = "\<lparr>v_site_id = 1, v_page_path = ''/home'', v_device_type = Desktop,
      nostr_event_id = Some ''ev1'', visited_at = 2\<rparr>"
  let ?home = "\<lparr>ps_site_id = 1, ps_page_path = ''/home'', ps_device_type = Desktop,
       visit_count = 3, last_seen = 4\<rparr>"
  let ?blog = "\<lparr>ps_site_id = 2, ps_page_path = ''/blog'', ps_device_type = Mobile,
       visit_count = 2, last_seen = 6\<rparr>"
  have s: "findSite two_sites_store ''def67890'' = Some ?site" by code_simp
  have e: "eventId (Some ''ev1'') = Some ''ev1''" by code_simp
  have h: "hd (visits two_sites_store) = ?w" by code_simp
  have m: "?w \<in> set (visits two_sites_store)" by code_simp
  have n: "nostr_event_id ?w = Some ''ev1''" by simp
  have ps: "page_stats two_sites_store = [?home, ?blog]" by code_simp
  have d: "distinct (map (\<lambda>r. (ps_site_id r, ps_page_path r, ps_device_type r)) (page_stats two_sites_store))"
    unfolding ps by simp
  have p1: "normalizePagePath (URL_new example_platform) (Some ''/blog'') = ''/blog''" by code_simp
  have d1: "normalizeDeviceType (Some ''mobile'') None = Mobile" by code_simp
  have p2: "normalizePagePath (URL_new example_platform) (Some ''/home'') = ''/home''" by code_simp
  have d2: "normalizeDeviceType (Some ''desktop'') None = Desktop" by code_simp
  from recordVisit_duplicate_reports_supplied_triple[OF s e m n d,
      of "URL_new example_platform" "Some ''/blog''" "Some ''mobile''" None 9]
  have a: "\<exists>r. recordVisit (URL_new example_platform) two_sites_store ''def67890'' (Some ''/blog'')
           (Some ''mobile'') None (Some ''ev1'') 9 = Inr (two_sites_store, r) \<and>
        r_siteUuid r = ''def67890'' \<and> r_pagePath r = ''/blog'' \<and> r_deviceType r = Mobile \<and>
        r_visits r = 2 \<and> r_lastSeen r = Some 6"
    unfolding p1 d1 ps by auto
  from recordVisit_duplicate_reports_supplied_triple[OF s e m n d,
      of "URL_new example_platform" "Some ''/home''" "Some ''desktop''" None 9]
  have b: "\<exists>r. recordVisit (URL_new example_platform) two_sites_store ''def67890'' (Some ''/home'')
           (Some ''desktop'') None (Some ''ev1'') 9 = Inr (two_sites_store, r) \<and>
        r_pagePath r = ''/home'' \<and> r_deviceType r = Desktop \<and>
        r_visits r = 0 \<and> r_lastSeen r = None"
    unfolding p2 d2 ps by auto
  from s e h ps a b show ?thesis by blast
qed

section \<open>The counters stay consistent with the visit history\<close>

lemma consistent_cell:
  "consistent st \<Longrightarrow> cell (page_stats st) k = length (filter (\<lambda>v. v_key v = k) (visits st))"
  unfolding consistent_def by blast

lemma consistent_site_sum:
  "consistent st \<Longrightarrow> site_sum (page_stats st) sid = length (filter (\<lambda>v. v_site_id v = sid) (visits st))"
  unfolding consistent_def by blast

lemma consistent_distinct: "consistent st \<Longrightarrow> distinct (map ps_key (page_stats st))"
  unfolding consistent_def by blast

lemma consistentI:
  assumes "distinct (map ps_key (page_stats st))"
    and "\<And>k. cell (page_stats st) k = length (filter (\<lambda>v. v_key v = k) (visits st))"
    and "\<And>sid. site_sum (page_stats st) sid = length (filter (\<lambda>v. v_site_id v = sid) (visits st))"
  shows "consistent st"
  unfolding consistent_def using assms by blast

lemma consistent_empty: "consistent empty_store"
  unfolding consistent_def by (simp add: empty_store_def cell_def site_sum_def)

lemma consistent_tables:
  "page_stats st' = page_stats st \<Longrightarrow> visits st' = visits st \<Longrightarrow> consistent st \<Longrightarrow> consistent st'"
  unfolding consistent_def by simp

text \<open>The upsert: the keys stay distinct, one cell and one site sum grow by one.\<close>

lemma upsert_keys:
  "map ps_key (fst (upsert_page_stat k now rs)) =
     (if k \<in> set (map ps_key rs) then map ps_key rs else map ps_key rs @ [k])"
  by (induction rs) (auto simp: ps_key_def Let_def split: prod.splits)

lemma upsert_distinct:
  "distinct (map ps_key rs) \<Longrightarrow> distinct (map ps_key (fst (upsert_page_stat k now rs)))"
  by (simp add: upsert_keys)

lemma upsert_cell_other:
  "k' \<noteq> k \<Longrightarrow> cell (fst (upsert_page_stat k now rs)) k' = cell rs k'"
  by (induction rs) (auto simp: cell_def ps_key_def Let_def split: prod.splits)

lemma upsert_cell_same:
  "cell (fst (upsert_page_stat k now rs)) k = Suc (cell rs k)"
  by (induction rs) (auto simp: cell_def ps_key_def Let_def split: prod.splits)

lemma upsert_site_sum:
  "site_sum (fst (upsert_page_stat k now rs)) sid = site_sum rs sid + (if fst k = sid then 1 else 0)"
  by (induction rs) (auto simp: site_sum_def ps_key_def Let_def split: prod.splits)

text \<open>The cascade of a deleted site.\<close>

lemma find_filter_key:
  "find (\<lambda>r. ps_key r = k) (filter (\<lambda>r. ps_site_id r \<noteq> sid) rs) =
     (if fst k = sid then None else find (\<lambda>r. ps_key r = k) rs)"
  by (induction rs) (auto simp: ps_key_def)

lemma cell_delete:
  "cell (filter (\<lambda>r. ps_site_id r \<noteq> sid) rs) k = (if fst k = sid then 0 else cell rs k)"
  by (simp add: cell_def find_filter_key)

lemma site_sum_delete:
  "site_sum (filter (\<lambda>r. ps_site_id r \<noteq> sid) rs) s = (if s = sid then 0 else site_sum rs s)"
  by (induction rs) (auto simp: site_sum_def)

lemma visits_key_delete:
  "length (filter (\<lambda>v. v_key v = k) (filter (\<lambda>v. v_site_id v \<noteq> sid) vs)) =
     (if fst k = sid then 0 else length (filter (\<lambda>v. v_key v = k) vs))"
  by (induction vs) (auto simp: v_key_def)

lemma visits_site_delete:
  "length (filter (\<lambda>v. v_site_id v = s) (filter (\<lambda>v. v_site_id v \<noteq> sid) vs)) =
     (if s = sid then 0 else length (filter (\<lambda>v. v_site_id v = s) vs))"
  by (induction vs) auto

text \<open>Every writing operation keeps the invariant.\<close>

lemma registerSite_tables:
  "registerSite st u n ow tok now = Inr (st', r) \<Longrightarrow> page_stats st' = page_stats st \<and> visits st' = visits st"
  by (auto simp: registerSite_def Let_def split: option.splits if_splits)

lemma updateSite_tables:
  "updateSiteByOwner dec st u c n now = Inr (st', r) \<Longrightarrow> page_stats st' = page_stats st \<and> visits st' = visits st"
  by (auto simp: updateSiteByOwner_def Let_def split: option.splits if_splits)

lemma deleteSite_consistent:
  assumes del: "deleteSiteByOwner dec st u c = Inr (st', r)" and c: "consistent st"
  shows "consistent st'"
proof (cases "findSite st u")
  case None
  with del show ?thesis by (simp add: deleteSiteByOwner_def)
next
  case (Some site)
  with del have ps: "page_stats st' = filter (\<lambda>r. ps_site_id r \<noteq> sr_id site) (page_stats st)"
    and vs: "visits st' = filter (\<lambda>v. v_site_id v \<noteq> sr_id site) (visits st)"
    by (auto simp: deleteSiteByOwner_def Let_def split: if_splits)
  show ?thesis
  proof (rule consistentI)
    show "distinct (map ps_key (page_stats st'))"
      using consistent_distinct[OF c] by (simp add: ps distinct_map_filter)
    show "cell (page_stats st') k = length (filter (\<lambda>v. v_key v = k) (visits st'))" for k
      using consistent_cell[OF c, of k] by (simp add: ps vs cell_delete visits_key_delete del: filter_filter)
    show "site_sum (page_stats st') sid = length (filter (\<lambda>v. v_site_id v = sid) (visits st'))" for sid
      using consistent_site_sum[OF c, of sid] by (simp add: ps vs site_sum_delete visits_site_delete del: filter_filter)
  qed
qed

lemma recordVisit_consistent:
  assumes rv: "recordVisit U st u pp dt ua ev now = Inr (st', r)" and c: "consistent st"
  shows "consistent st'"
proof -
  from rv obtain site where site: "findSite st u = Some site"
    by (auto simp: recordVisit_def split: option.splits)
  let ?k = "(sr_id site, normalizePagePath U pp, normalizeDeviceType dt ua)"
  show ?thesis
  proof (cases "\<exists>e. eventId ev = Some e \<and> (\<exists>w\<in>set (visits st). nostr_event_id w = Some e)")
    case True
    then obtain e where "eventId ev = Some e" "\<exists>w\<in>set (visits st). nostr_event_id w = Some e" by blast
    from recordVisit_duplicate[OF site this] rv c show ?thesis by simp
  next
    case False
    then have fresh: "eventId ev = None \<or> (\<forall>w\<in>set (visits st). nostr_event_id w \<noteq> eventId ev)"
      by (cases "eventId ev") auto
    obtain rs' x where ups: "upsert_page_stat ?k now (page_stats st) = (rs', x)"
      by (cases "upsert_page_stat ?k now (page_stats st)")
    then have rs': "rs' = fst (upsert_page_stat ?k now (page_stats st))" by simp
    from recordVisit_fresh[OF site fresh ups] rv
    have st': "st' = st\<lparr>visits := visits st @ [\<lparr>v_site_id = sr_id site, v_page_path = normalizePagePath U pp,
                 v_device_type = normalizeDeviceType dt ua, nostr_event_id = eventId ev, visited_at = now\<rparr>],
              page_stats := rs'\<rparr>" by simp
    have ps: "page_stats st' = fst (upsert_page_stat ?k now (page_stats st))"
      by (simp add: st' rs')
    have vs: "visits st' = visits st @ [\<lparr>v_site_id = sr_id site, v_page_path = normalizePagePath U pp,
                 v_device_type = normalizeDeviceType dt ua, nostr_event_id = eventId ev, visited_at = now\<rparr>]"
      by (simp add: st')
    show ?thesis
    proof (rule consistentI)
      show "distinct (map ps_key (page_stats st'))"
        using consistent_distinct[OF c] by (simp only: ps upsert_distinct)
      show "cell (page_stats st') k = length (filter (\<lambda>v. v_key v = k) (visits st'))" for k
      proof (cases "k = ?k")
        case True
        then show ?thesis using consistent_cell[OF c, of k]
          by (simp add: ps vs upsert_cell_same v_key_def)
      next
        case False
        then show ?thesis using consistent_cell[OF c, of k]
          by (auto simp add: ps vs upsert_cell_other v_key_def)
      qed
      show "site_sum (page_stats st') sid = length (filter (\<lambda>v. v_site_id v = sid) (visits st'))" for sid
        using consistent_site_sum[OF c, of sid] by (simp add: ps vs upsert_site_sum)
    qed
  qed
qed

lemma exec_consistent: "consistent st \<Longrightarrow> consistent (exec P st x)"
proof (cases x)
  case (RegisterSite u n ow tok now)
  assume "consistent st"
  then show ?thesis
    using registerSite_tables[of st u n ow tok now]
    by (auto simp: RegisterSite after_def split: sum.splits intro: consistent_tables)
next
  case (RecordVisit u pp dt ua ev now)
  assume "consistent st"
  then show ?thesis
    by (auto simp: RecordVisit after_def split: sum.splits intro: recordVisit_consistent)
next
  case (UpdateSite u c n now)
  assume "consistent st"
  then show ?thesis
    using updateSite_tables[of "nip19_decode P" st u c n now]
    by (auto simp: UpdateSite after_def split: sum.splits intro: consistent_tables)
next
  case (DeleteSite u c)
  assume "consistent st"
  then show ?thesis
    by (auto simp: DeleteSite after_def split: sum.splits intro: deleteSite_consistent)
qed

lemma foldl_exec_consistent: "consistent st \<Longrightarrow> consistent (foldl (exec P) st xs)"
  by (induction xs arbitrary: st) (simp_all add: exec_consistent)

lemma run_consistent: "consistent (run P xs)"
  by (simp add: run_def foldl_exec_consistent consistent_empty)

text \<open>The total that the loop of \<^verbatim>\<open>getSiteStats\<close> accumulates.\<close>

lemma page_loop_total_acc:
  "snd (foldl page_step (m, t) rows) = t + sum_list (map visit_count rows)"
  by (induction rows arbitrary: m t) (simp_all add: page_step_def Let_def)

lemma page_loop_total: "snd (page_loop rows) = sum_list (map visit_count rows)"
  by (simp add: page_loop_def page_loop_total_acc)

lemma sum_list_sort_key:
  "sum_list (map f (sort_key g xs)) = sum_list (map (f :: 'a \<Rightarrow> nat) xs)"
proof -
  have "mset (map f (sort_key g xs)) = mset (map f xs)" by simp
  then show ?thesis by (metis sum_mset_sum_list)
qed

lemma stat_rows_total: "sum_list (map visit_count (stat_rows st sid)) = site_sum (page_stats st) sid"
  by (simp add: stat_rows_def site_sum_def sum_list_sort_key)

lemma getSiteStats_total:
  assumes "findSite st u = Some site" and "getSiteStats d st u npub = Inr stats"
  shows "totals_visits stats = site_sum (page_stats st) (sr_id site)"
  using assms page_loop_total[of "stat_rows st (sr_id site)"]
  by (auto simp: getSiteStats_def Let_def stat_rows_total split: if_splits prod.splits)

lemma getSiteStats_owner_returns:
  assumes "findSite st u = Some site"
  shows "\<exists>stats. getSiteStats d st u (orEmpty (owner_npub site)) = Inr stats"
  using assms
  by (auto simp: getSiteStats_def Let_def truthy_def orEmpty_def split: option.splits prod.splits)

text \<open>
  C1. In every store that a history of core operations builds from the empty store, and for
  every registered site: \<^verbatim>\<open>getSiteStats\<close> returns for the site's owner, and whenever it
  returns, \<^verbatim>\<open>totals.visits\<close> is the sum of \<^verbatim>\<open>visit_count\<close> over the site's
  \<^verbatim>\<open>page_stats\<close> rows, which is the number of the site's \<^verbatim>\<open>visits\<close> rows. Moreover every
  \<^verbatim>\<open>page_stats\<close> row counts exactly the stored \<^verbatim>\<open>visits\<close> rows of its (site, page path,
  device type) triple, the stored rows being those that were not suppressed as duplicates.
\<close>

theorem getSiteStats_totals_consistent:
  assumes site: "findSite (run P ops) uuid = Some site"
  shows "(\<exists>stats. getSiteStats (local_date P) (run P ops) uuid (orEmpty (owner_npub site)) = Inr stats) \<and>
         (\<forall>npub stats. getSiteStats (local_date P) (run P ops) uuid npub = Inr stats \<longrightarrow>
            totals_visits stats =
              sum_list (map visit_count (filter (\<lambda>r. ps_site_id r = sr_id site) (page_stats (run P ops)))) \<and>
            totals_visits stats =
              length (filter (\<lambda>v. v_site_id v = sr_id site) (visits (run P ops)))) \<and>
         (\<forall>r\<in>set (page_stats (run P ops)).
            visit_count r = length (filter (\<lambda>v. v_key v = ps_key r) (visits (run P ops))))"
proof -
  have c: "consistent (run P ops)" by (rule run_consistent)
  have rows: "visit_count r = length (filter (\<lambda>v. v_key v = ps_key r) (visits (run P ops)))"
    if "r \<in> set (page_stats (run P ops))" for r
  proof -
    from that have "find (\<lambda>x. ps_key x = ps_key r) (page_stats (run P ops)) = Some r"
      by (simp add: consistent_distinct[OF c] distinct_find_key)
    then have "cell (page_stats (run P ops)) (ps_key r) = visit_count r" by (simp add: cell_def)
    with consistent_cell[OF c, of "ps_key r"] show ?thesis by simp
  qed
  have tot: "totals_visits stats =
              sum_list (map visit_count (filter (\<lambda>r. ps_site_id r = sr_id site) (page_stats (run P ops)))) \<and>
            totals_visits stats =
              length (filter (\<lambda>v. v_site_id v = sr_id site) (visits (run P ops)))"
    if "getSiteStats (local_date P) (run P ops) uuid npub = Inr stats" for npub stats
    using getSiteStats_total[OF site that] consistent_site_sum[OF c, of "sr_id site"]
    by (simp add: site_sum_def)
  from getSiteStats_owner_returns[OF site] rows tot show ?thesis by blast
qed

text \<open>The scenario of the specification: four deliveries, three visits counted.\<close>

theorem getSiteStats_totals_consistent_witness:
  "findSite (run example_platform example_history) ''abc12345'' =
     Some (hd (sites (run example_platform example_history))) \<and>
   (\<exists>stats. getSiteStats (local_date example_platform) (run example_platform example_history)
              ''abc12345'' ''ownerX'' = Inr stats \<and>
            totals_visits stats = 3 \<and>
            length (filter (\<lambda>v. v_site_id v = 1) (visits (run example_platform example_history))) = 3) \<and>
   list_all
     (\<lambda>r. visit_count r = length (filter (\<lambda>v. v_key v = ps_key r) (visits (run example_platform example_history))))
     (page_stats (run example_platform example_history))"
proof -
  let ?st = "run example_platform example_history"
  have s: "findSite ?st ''abc12345'' = Some (hd (sites ?st))" by code_simp
  have o: "orEmpty (owner_npub (hd (sites ?st))) = ''ownerX''" by code_simp
  have i: "sr_id (hd (sites ?st)) = 1" by code_simp
  have n: "length (filter (\<lambda>v. v_site_id v = 1) (visits ?st)) = 3" by code_simp
  from getSiteStats_totals_consistent[OF s] s show ?thesis
    unfolding o i n list_all_iff by blast
qed

section \<open>Properties of the site registry and of the ownership checks\<close>

lemma not_truthy_normalize: "\<not> truthy x \<Longrightarrow> normalizeHexPubkey dec x = None"
  by (simp add: normalizeHexPubkey_def)

lemma getSiteStats_returns_iff:
  assumes "findSite st u = Some site"
  shows "(\<exists>s. getSiteStats d st u caller = Inr s) =
           (\<not> (truthy (owner_npub site) \<and> owner_npub site \<noteq> Some caller))"
  using assms by (auto simp: getSiteStats_def Let_def split: prod.splits)

lemma getSiteStats_mismatch:
  assumes "findSite st u = Some site" and "truthy (owner_npub site)" and "owner_npub site \<noteq> Some caller"
  shows "getSiteStats d st u caller = Inl OwnerNpubMismatch"
  using assms by (simp add: getSiteStats_def)

lemma updateSite_guard:
  assumes "findSite st u = Some site"
  shows "(\<exists>r. updateSiteByOwner dec st u caller n now = Inr r) = same_key dec (owner_npub site) caller"
    and "\<not> same_key dec (owner_npub site) caller \<Longrightarrow>
           updateSiteByOwner dec st u caller n now = Inl UnableToValidateOwner \<or>
           updateSiteByOwner dec st u caller n now = Inl CallerDoesNotMatchOwner"
  using assms by (auto simp: updateSiteByOwner_def same_key_def Let_def split: option.splits)

lemma deleteSite_guard:
  assumes "findSite st u = Some site"
  shows "(\<exists>r. deleteSiteByOwner dec st u caller = Inr r) = same_key dec (owner_npub site) caller"
    and "\<not> same_key dec (owner_npub site) caller \<Longrightarrow>
           deleteSiteByOwner dec st u caller = Inl UnableToValidateOwner \<or>
           deleteSiteByOwner dec st u caller = Inl CallerDoesNotMatchOwner"
  using assms by (auto simp: deleteSiteByOwner_def same_key_def Let_def)

text \<open>
  C4, as the code has it. On an existing site whose stored owner identity is absent or empty,
  \<^verbatim>\<open>updateSiteByOwner\<close> and \<^verbatim>\<open>deleteSiteByOwner\<close> fail with an authorization error for
  every caller identity; \<^verbatim>\<open>getSiteStats\<close> makes no ownership check on such a site and
  returns its stats to every caller.
\<close>

theorem ownerless_site_guard:
  assumes "findSite st u = Some site" and "\<not> truthy (owner_npub site)"
  shows "updateSiteByOwner dec st u caller n now = Inl UnableToValidateOwner \<and>
         deleteSiteByOwner dec st u caller = Inl UnableToValidateOwner \<and>
         is_authorization_error UnableToValidateOwner \<and>
         (\<exists>stats. getSiteStats d st u caller = Inr stats)"
proof -
  from assms(2) have none: "normalizeHexPubkey dec (owner_npub site) = None"
    by (rule not_truthy_normalize)
  have upd: "updateSiteByOwner dec st u caller n now = Inl UnableToValidateOwner"
    by (simp add: updateSiteByOwner_def assms(1) none truthy_def)
  have del: "deleteSiteByOwner dec st u caller = Inl UnableToValidateOwner"
    by (simp add: deleteSiteByOwner_def assms(1) none truthy_def)
  have stats: "\<exists>stats. getSiteStats d st u caller = Inr stats"
    using assms by (simp add: getSiteStats_returns_iff)
  from upd del stats show ?thesis by (simp add: is_authorization_error_def)
qed

theorem ownerless_site_guard_witness:
  "findSite (run example_platform [RegisterSite ''abc12345'' None [] ''5ec2e7'' 0]) ''abc12345'' =
     Some \<lparr>sr_id = 1, site_uuid = ''abc12345'', sr_name = None, owner_npub = Some [],
           owner_signature = None, secret_token = ''5ec2e7'', created_at = 0, updated_at = 0\<rparr> \<and>
   updateSiteByOwner (nip19_decode example_platform)
     (run example_platform [RegisterSite ''abc12345'' None [] ''5ec2e7'' 0])
     ''abc12345'' example_hex (Some (Some ''mine'')) 1 = Inl UnableToValidateOwner \<and>
   deleteSiteByOwner (nip19_decode example_platform)
     (run example_platform [RegisterSite ''abc12345'' None [] ''5ec2e7'' 0])
     ''abc12345'' example_hex = Inl UnableToValidateOwner \<and>
   (\<exists>stats. getSiteStats (local_date example_platform)
     (run example_platform [RegisterSite ''abc12345'' None [] ''5ec2e7'' 0])
     ''abc12345'' example_hex = Inr stats)"
proof -
  let ?st = "run example_platform [RegisterSite ''abc12345'' None [] ''5ec2e7'' 0]"
  let ?site = "\<lparr>sr_id = 1, site_uuid = ''abc12345'', sr_name = None, owner_npub = Some [],
           owner_signature = None, secret_token = ''5ec2e7'', created_at = 0, updated_at = 0\<rparr>"
  have s: "findSite ?st ''abc12345'' = Some ?site" by code_simp
  have t: "\<not> truthy (owner_npub ?site)" by (simp add: truthy_def)
  from ownerless_site_guard[OF s t] s show ?thesis by blast
qed

text \<open>
  C4, the claim refuted: a site registered with an empty owner identity, and
  \<^verbatim>\<open>getSiteStats\<close> returning its stats to an arbitrary caller.
\<close>

theorem getSiteStats_ownerless_counterexample:
  "map owner_npub (sites (run example_platform [RegisterSite ''abc12345'' None [] ''5ec2e7'' 0])) = [Some []] \<and>
   getSiteStats (local_date example_platform)
     (run example_platform [RegisterSite ''abc12345'' None [] ''5ec2e7'' 0]) ''abc12345'' ''anyone'' =
     Inr \<lparr>st_uuid = ''abc12345'', st_name = None, st_ownerNpub = Some [],
          totals_visits = 0, totals_pages = 0, pages = [], visitsByDay = [], pageVisitsByDay = []\<rparr>"
  by (simp add: run_def empty_store_def after_def registerSite_def findSite_def coalesce_def
      getSiteStats_def truthy_def stat_rows_def page_loop_def pageVisitsByDayRows_def
      visitsByDayRows_def site_visits_def Let_def)

text \<open>
  C5, as the code has it. On a site with a stored owner identity, \<^verbatim>\<open>updateSiteByOwner\<close>
  and \<^verbatim>\<open>deleteSiteByOwner\<close> let the caller through exactly when the stored and the supplied
  identity normalize to the same non-empty lowercase hexadecimal key, and fail with an
  authorization error otherwise. \<^verbatim>\<open>getSiteStats\<close> does not normalize: it lets the caller
  through exactly when the supplied string is the stored string, and fails with an
  authorization error otherwise.
\<close>

theorem owner_guard_by_operation:
  assumes "findSite st u = Some site" and "truthy (owner_npub site)"
  shows "((\<exists>r. updateSiteByOwner dec st u caller n now = Inr r) = same_key dec (owner_npub site) caller) \<and>
         ((\<exists>r. deleteSiteByOwner dec st u caller = Inr r) = same_key dec (owner_npub site) caller) \<and>
         (\<not> same_key dec (owner_npub site) caller \<longrightarrow>
            (\<exists>e. updateSiteByOwner dec st u caller n now = Inl e \<and> is_authorization_error e) \<and>
            (\<exists>e. deleteSiteByOwner dec st u caller = Inl e \<and> is_authorization_error e)) \<and>
         ((\<exists>s. getSiteStats d st u caller = Inr s) = (owner_npub site = Some caller)) \<and>
         (owner_npub site \<noteq> Some caller \<longrightarrow>
            (\<exists>e. getSiteStats d st u caller = Inl e \<and> is_authorization_error e))"
proof -
  note upd = updateSite_guard[OF assms(1), of dec caller n now]
  note del = deleteSite_guard[OF assms(1), of dec caller]
  have g1: "(\<exists>s. getSiteStats d st u caller = Inr s) = (owner_npub site = Some caller)"
    using assms by (simp add: getSiteStats_returns_iff)
  have g2: "owner_npub site \<noteq> Some caller \<Longrightarrow>
            \<exists>e. getSiteStats d st u caller = Inl e \<and> is_authorization_error e"
    using getSiteStats_mismatch[OF assms] by (simp add: is_authorization_error_def)
  have u2: "\<not> same_key dec (owner_npub site) caller \<Longrightarrow>
            \<exists>e. updateSiteByOwner dec st u caller n now = Inl e \<and> is_authorization_error e"
    using upd(2) by (auto simp: is_authorization_error_def)
  have d2: "\<not> same_key dec (owner_npub site) caller \<Longrightarrow>
            \<exists>e. deleteSiteByOwner dec st u caller = Inl e \<and> is_authorization_error e"
    using del(2) by (auto simp: is_authorization_error_def)
  from upd(1) del(1) g1 g2 u2 d2 show ?thesis by blast
qed

theorem owner_guard_by_operation_witness:
  "findSite (run example_platform [RegisterSite ''abc12345'' None example_npub ''5ec2e7'' 0]) ''abc12345'' =
     Some \<lparr>sr_id = 1, site_uuid = ''abc12345'', sr_name = None, owner_npub = Some example_npub,
           owner_signature = None, secret_token = ''5ec2e7'', created_at = 0, updated_at = 0\<rparr> \<and>
   truthy (Some example_npub) \<and>
   same_key (nip19_decode example_platform) (Some example_npub) example_hex \<and>
   (\<exists>r. updateSiteByOwner (nip19_decode example_platform)
          (run example_platform [RegisterSite ''abc12345'' None example_npub ''5ec2e7'' 0])
          ''abc12345'' example_hex (Some (Some ''mine'')) 1 = Inr r) \<and>
   (\<exists>r. deleteSiteByOwner (nip19_decode example_platform)
          (run example_platform [RegisterSite ''abc12345'' None example_npub ''5ec2e7'' 0])
          ''abc12345'' example_hex = Inr r) \<and>
   (\<exists>e. getSiteStats (local_date example_platform)
          (run example_platform [RegisterSite ''abc12345'' None example_npub ''5ec2e7'' 0])
          ''abc12345'' example_hex = Inl e \<and> is_authorization_error e)"
proof -
  let ?st = "run example_platform [RegisterSite ''abc12345'' None example_npub ''5ec2e7'' 0]"
  let ?site = "\<lparr>sr_id = 1, site_uuid = ''abc12345'', sr_name = None, owner_npub = Some example_npub,
           owner_signature = None, secret_token = ''5ec2e7'', created_at = 0, updated_at = 0\<rparr>"
  have s: "findSite ?st ''abc12345'' = Some ?site" by code_simp
  have t: "truthy (Some example_npub)" by code_simp
  have k: "same_key (nip19_decode example_platform) (Some example_npub) example_hex" by code_simp
  have n: "Some example_npub \<noteq> Some example_hex" by code_simp
  from t have t': "truthy (owner_npub ?site)" by simp
  from owner_guard_by_operation[OF s t', of "nip19_decode example_platform" example_hex
      "Some (Some ''mine'')" 1 "local_date example_platform"] k n
  have "(\<exists>r. updateSiteByOwner (nip19_decode example_platform) ?st
          ''abc12345'' example_hex (Some (Some ''mine'')) 1 = Inr r) \<and>
        (\<exists>r. deleteSiteByOwner (nip19_decode example_platform) ?st ''abc12345'' example_hex = Inr r) \<and>
        (\<exists>e. getSiteStats (local_date example_platform) ?st ''abc12345'' example_hex = Inl e \<and>
             is_authorization_error e)"
    by simp
  with s t k show ?thesis by blast
qed

text \<open>
  C5, the claim refuted: the stored owner is the npub of a key and the caller supplies the
  hexadecimal form of the same key; both normalize to that key, and \<^verbatim>\<open>getSiteStats\<close>
  fails with the owner mismatch.
\<close>

theorem getSiteStats_encoding_counterexample:
  "map owner_npub (sites (run example_platform [RegisterSite ''abc12345'' None example_npub ''5ec2e7'' 0])) =
     [Some example_npub] \<and>
   normalizeHexPubkey (nip19_decode example_platform) (Some example_npub) = Some example_hex \<and>
   normalizeHexPubkey (nip19_decode example_platform) (Some example_hex) = Some example_hex \<and>
   getSiteStats (local_date example_platform)
     (run example_platform [RegisterSite ''abc12345'' None example_npub ''5ec2e7'' 0])
     ''abc12345'' example_hex = Inl OwnerNpubMismatch"
proof -
  let ?st = "run example_platform [RegisterSite ''abc12345'' None example_npub ''5ec2e7'' 0]"
  have a: "map owner_npub (sites ?st) = [Some example_npub]" by code_simp
  have b: "normalizeHexPubkey (nip19_decode example_platform) (Some example_npub) = Some example_hex"
    by code_simp
  have c: "normalizeHexPubkey (nip19_decode example_platform) (Some example_hex) = Some example_hex"
    by code_simp
  have s: "findSite ?st ''abc12345'' = Some (hd (sites ?st))" by code_simp
  have t: "truthy (owner_npub (hd (sites ?st)))" by code_simp
  have n: "owner_npub (hd (sites ?st)) \<noteq> Some example_hex" by code_simp
  from getSiteStats_mismatch[OF s t n] a b c show ?thesis by simp
qed

lemma find_append_none:
  "find P xs = None \<Longrightarrow> find P (xs @ ys) = find P ys"
  by (induction xs) (auto split: if_splits)

lemma find_map_same_uuid:
  assumes "\<And>s. site_uuid (f s) = site_uuid s"
  shows "find (\<lambda>s. site_uuid s = u) (map (\<lambda>s. if site_uuid s = u then f s else s) xs) =
         map_option f (find (\<lambda>s. site_uuid s = u) xs)"
  by (induction xs) (simp_all add: assms)

lemma registerSite_existing:
  assumes "findSite st u = Some site"
    and "\<not> (ow \<noteq> [] \<and> truthy (owner_npub site) \<and> owner_npub site \<noteq> Some ow)"
  shows "\<exists>st'. registerSite st u n ow tok now =
           Inr (st', Some (site\<lparr>sr_name := coalesce n (sr_name site), owner_npub := Some ow,
                               updated_at := now\<rparr>)) \<and>
         findSite st' u = Some (site\<lparr>sr_name := coalesce n (sr_name site), owner_npub := Some ow,
                                      updated_at := now\<rparr>)"
proof -
  let ?f = "\<lambda>s. s\<lparr>sr_name := coalesce n (sr_name s),
                    owner_npub := coalesce (Some ow) (owner_npub s), updated_at := now\<rparr>"
  have "find (\<lambda>s. site_uuid s = u) (map (\<lambda>s. if site_uuid s = u then ?f s else s) (sites st)) =
        map_option ?f (find (\<lambda>s. site_uuid s = u) (sites st))"
    by (rule find_map_same_uuid) simp
  with assms show ?thesis
    by (auto simp: registerSite_def findSite_def Let_def coalesce_def)
qed

text \<open>The part of C6 that the code keeps: a different non-empty owner is refused, the same
  owner is stored again.\<close>

lemma registerSite_conflict:
  assumes "findSite st u = Some site" and "ow \<noteq> []" and "truthy (owner_npub site)"
    and "owner_npub site \<noteq> Some ow"
  shows "registerSite st u n ow tok now = Inl OwnerDoesNotMatchExisting"
  using assms by (simp add: registerSite_def)

lemma registerSite_same_owner:
  assumes "findSite st u = Some site" and "owner_npub site = Some ow"
  shows "\<exists>st' r. registerSite st u n ow tok now = Inr (st', r) \<and>
           map_option owner_npub (findSite st' u) = Some (Some ow)"
proof -
  from assms(2) have "\<not> (ow \<noteq> [] \<and> truthy (owner_npub site) \<and> owner_npub site \<noteq> Some ow)" by simp
  from registerSite_existing[OF assms(1) this, of n tok now] show ?thesis by auto
qed

text \<open>
  C6, where the code departs from it. A call of \<^verbatim>\<open>registerSite\<close> on an existing site with
  the empty string as owner identity passes the conflict test, which takes the empty string
  for "no owner supplied", and then stores it: \<^verbatim>\<open>COALESCE\<close> keeps the old value for NULL
  only. The stored owner identity is the empty string afterwards, whatever it was.
\<close>

theorem registerSite_empty_owner_clears:
  assumes "findSite st u = Some site"
  shows "\<exists>st' r. registerSite st u n [] tok now = Inr (st', r) \<and>
           map_option owner_npub (findSite st' u) = Some (Some [])"
proof -
  have "\<not> ([] \<noteq> ([] :: string) \<and> truthy (owner_npub site) \<and> owner_npub site \<noteq> Some [])" by simp
  from registerSite_existing[OF assms this, of n tok now] show ?thesis by auto
qed

text \<open>The owner \<^verbatim>\<open>alice\<close> is cleared by a second registration, and a third one takes the
  site for \<^verbatim>\<open>mallory\<close>.\<close>

theorem registerSite_empty_owner_clears_witness:
  "findSite (run example_platform [RegisterSite ''abc12345'' None ''alice'' ''5ec2e7'' 0]) ''abc12345'' =
     Some \<lparr>sr_id = 1, site_uuid = ''abc12345'', sr_name = None, owner_npub = Some ''alice'',
           owner_signature = None, secret_token = ''5ec2e7'', created_at = 0, updated_at = 0\<rparr> \<and>
   (\<exists>st' r. registerSite (run example_platform [RegisterSite ''abc12345'' None ''alice'' ''5ec2e7'' 0])
              ''abc12345'' None [] ''9a41c0'' 1 = Inr (st', r) \<and>
            map_option owner_npub (findSite st' ''abc12345'') = Some (Some [])) \<and>
   map owner_npub (sites (run example_platform
       [RegisterSite ''abc12345'' None ''alice'' ''5ec2e7'' 0,
        RegisterSite ''abc12345'' None [] ''9a41c0'' 1,
        RegisterSite ''abc12345'' None ''mallory'' ''77b2d3'' 2])) = [Some ''mallory'']"
proof -
  let ?st = "run example_platform [RegisterSite ''abc12345'' None ''alice'' ''5ec2e7'' 0]"
  have s: "findSite ?st ''abc12345'' =
     Some \<lparr>sr_id = 1, site_uuid = ''abc12345'', sr_name = None, owner_npub = Some ''alice'',
           owner_signature = None, secret_token = ''5ec2e7'', created_at = 0, updated_at = 0\<rparr>"
    by code_simp
  have m: "map owner_npub (sites (run example_platform
       [RegisterSite ''abc12345'' None ''alice'' ''5ec2e7'' 0,
        RegisterSite ''abc12345'' None [] ''9a41c0'' 1,
        RegisterSite ''abc12345'' None ''mallory'' ''77b2d3'' 2])) = [Some ''mallory'']"
    by code_simp
  from registerSite_empty_owner_clears[OF s, of None "''9a41c0''" 1] s m show ?thesis by blast
qed

text \<open>
  C9, as the code has it. The core does not validate the public site identifier; the
  transport's input schema is what asks for eight characters. Called with the empty
  identifier on a store that has no site of that identifier, \<^verbatim>\<open>recordVisit\<close>,
  \<^verbatim>\<open>getSiteStats\<close>, \<^verbatim>\<open>updateSiteByOwner\<close> and \<^verbatim>\<open>deleteSiteByOwner\<close> fail with the
  not-found error, and \<^verbatim>\<open>registerSite\<close> creates a site record whose identifier is empty.
\<close>

theorem empty_public_id_not_validated:
  assumes "findSite st [] = None"
  shows "recordVisit U st [] pp dt ua ev now = Inl SiteNotFound \<and>
         getSiteStats d st [] caller = Inl SiteNotFound \<and>
         updateSiteByOwner dec st [] caller n now = Inl SiteNotFound \<and>
         deleteSiteByOwner dec st [] caller = Inl SiteNotFound \<and>
         (\<exists>st' row. registerSite st [] nm ow tok now = Inr (st', Some row) \<and>
            site_uuid row = [] \<and> findSite st' [] = Some row \<and>
            length (sites st') = Suc (length (sites st)))"
proof -
  have reg: "\<exists>st' row. registerSite st [] nm ow tok now = Inr (st', Some row) \<and>
            site_uuid row = [] \<and> findSite st' [] = Some row \<and>
            length (sites st') = Suc (length (sites st))"
  proof -
    from assms have none: "find (\<lambda>s. site_uuid s = []) (sites st) = None"
      by (simp add: findSite_def)
    show ?thesis
      by (simp add: registerSite_def Let_def findSite_def none find_append_none)
  qed
  from assms reg show ?thesis
    by (simp add: recordVisit_def getSiteStats_def updateSiteByOwner_def deleteSiteByOwner_def)
qed

theorem empty_public_id_not_validated_witness:
  "findSite empty_store [] = None \<and>
   recordVisit (URL_new example_platform) empty_store [] None None None None 0 = Inl SiteNotFound \<and>
   getSiteStats (local_date example_platform) empty_store [] ''ownerX'' = Inl SiteNotFound \<and>
   updateSiteByOwner (nip19_decode example_platform) empty_store [] ''ownerX'' None 0 = Inl SiteNotFound \<and>
   deleteSiteByOwner (nip19_decode example_platform) empty_store [] ''ownerX'' = Inl SiteNotFound \<and>
   (\<exists>st' row. registerSite empty_store [] None ''ownerX'' ''5ec2e7'' 0 = Inr (st', Some row) \<and>
      site_uuid row = [] \<and> findSite st' [] = Some row \<and>
      length (sites st') = Suc (length (sites empty_store)))"
proof -
  have s: "findSite empty_store [] = None" by (simp add: findSite_def empty_store_def)
  from empty_public_id_not_validated[OF s] s show ?thesis by blast
qed

text \<open>C9, the claim refuted: \<^verbatim>\<open>registerSite\<close> with the empty identifier, on the empty
  store, returns the site record it has created.\<close>

theorem registerSite_empty_id_counterexample:
  "registerSite empty_store [] None ''ownerX'' ''5ec2e7'' 0 =
     Inr (\<lparr>sites = [\<lparr>sr_id = 1, site_uuid = [], sr_name = None, owner_npub = Some ''ownerX'',
                     owner_signature = None, secret_token = ''5ec2e7'',
                     created_at = 0, updated_at = 0\<rparr>],
           page_stats = [], visits = [], sites_seq = 1\<rparr>,
          Some \<lparr>sr_id = 1, site_uuid = [], sr_name = None, owner_npub = Some ''ownerX'',
                owner_signature = None, secret_token = ''5ec2e7'',
                created_at = 0, updated_at = 0\<rparr>)"
  by (simp add: registerSite_def findSite_def empty_store_def Let_def)

section \<open>Properties of the normalizers and of the aggregation\<close>

text \<open>The part of C7 that the code keeps: the result begins with a slash whenever the
  pathnames that the \<^verbatim>\<open>URL\<close> constructor gives are empty or begin with one.\<close>

lemma normalizePagePath_slash:
  assumes "\<And>i b url. new_URL i b = Some url \<Longrightarrow> pathname url = [] \<or> startsWith (pathname url) ''/''"
  shows "startsWith (normalizePagePath new_URL path) ''/''"
proof (cases "truthy path")
  case False
  then show ?thesis by (simp add: normalizePagePath_def startsWith_def)
next
  case True
  let ?p = "orEmpty path"
  let ?r = "if startsWith ?p ''http'' then new_URL ?p None else new_URL ?p (Some ''http://placeholder'')"
  show ?thesis
  proof (cases ?r)
    case None
    with True show ?thesis by (simp add: normalizePagePath_def startsWith_def Let_def)
  next
    case (Some url)
    then obtain i b where "new_URL i b = Some url"
      by (cases "startsWith ?p ''http''") auto
    then have "pathname url = [] \<or> startsWith (pathname url) ''/''"
      by (rule assms)
    with True Some show ?thesis by (auto simp: normalizePagePath_def startsWith_def Let_def)
  qed
qed

text \<open>
  C7, where the code departs from it. When the \<^verbatim>\<open>URL\<close> constructor accepts the input and
  the pathname of the URL is neither empty nor begins with a slash, as for a URL with an
  opaque path, \<^verbatim>\<open>normalizePagePath\<close> returns that pathname as it is: the result does not
  begin with a slash.
\<close>

theorem normalizePagePath_opaque_path:
  assumes "p \<noteq> []"
    and "(if startsWith p ''http'' then new_URL p None
          else new_URL p (Some ''http://placeholder'')) = Some url"
    and "pathname url \<noteq> []"
    and "\<not> startsWith (pathname url) ''/''"
  shows "normalizePagePath new_URL (Some p) = pathname url \<and>
         \<not> startsWith (normalizePagePath new_URL (Some p)) ''/''"
  using assms by (simp add: normalizePagePath_def truthy_def orEmpty_def)

theorem normalizePagePath_opaque_path_witness:
  "''mailto:a'' \<noteq> [] \<and>
   URL_new example_platform ''mailto:a'' (Some ''http://placeholder'') = Some \<lparr>pathname = ''a''\<rparr> \<and>
   normalizePagePath (URL_new example_platform) (Some ''mailto:a'') = ''a'' \<and>
   \<not> startsWith (normalizePagePath (URL_new example_platform) (Some ''mailto:a'')) ''/''"
proof -
  have n: "''mailto:a'' \<noteq> []" by simp
  have h: "\<not> startsWith ''mailto:a'' ''http''" by (simp add: startsWith_def)
  have u: "URL_new example_platform ''mailto:a'' (Some ''http://placeholder'') = Some \<lparr>pathname = ''a''\<rparr>"
    by (simp add: example_platform_def)
  from h u have c: "(if startsWith ''mailto:a'' ''http'' then URL_new example_platform ''mailto:a'' None
          else URL_new example_platform ''mailto:a'' (Some ''http://placeholder'')) = Some \<lparr>pathname = ''a''\<rparr>"
    by simp
  have e: "pathname \<lparr>pathname = ''a''\<rparr> \<noteq> []" by simp
  have t: "\<not> startsWith (pathname \<lparr>pathname = ''a''\<rparr>) ''/''" by (simp add: startsWith_def)
  from normalizePagePath_opaque_path[of "''mailto:a''" "URL_new example_platform"
      "\<lparr>pathname = ''a''\<rparr>", OF n c e t] u
  show ?thesis by (simp add: startsWith_def)
qed

text \<open>What the loop of \<^verbatim>\<open>getSiteStats\<close> leaves in \<^verbatim>\<open>lastSeen\<close>: the time of the last
  row of the page, in the order of the query.\<close>

lemma map_get_map_set: "map_get (map_set k v m) k' = (if k' = k then Some v else map_get m k')"
  by (induction m) (auto simp: map_get_def)

lemma page_step_get_other:
  "p \<noteq> ps_page_path row \<Longrightarrow> map_get (fst (page_step (m, t) row)) p = map_get m p"
  by (simp add: page_step_def Let_def map_get_map_set)

lemma page_step_get_same:
  "\<exists>e. map_get (fst (page_step (m, t) row)) (ps_page_path row) = Some e \<and>
        lastSeen e = Some (last_seen row)"
  by (simp add: page_step_def Let_def map_get_map_set)

lemma page_loop_lastSeen_acc:
  assumes "filter (\<lambda>r. ps_page_path r = p) rows \<noteq> []"
  shows "\<exists>e. map_get (fst (foldl page_step acc rows)) p = Some e \<and>
           lastSeen e = Some (last_seen (last (filter (\<lambda>r. ps_page_path r = p) rows)))"
  using assms
proof (induction rows rule: rev_induct)
  case Nil
  then show ?case by simp
next
  case (snoc x xs)
  obtain m t where acc: "foldl page_step acc xs = (m, t)" by (cases "foldl page_step acc xs")
  show ?case
  proof (cases "ps_page_path x = p")
    case True
    with page_step_get_same[of m t x] show ?thesis by (simp add: acc)
  next
    case False
    with snoc.prems have "filter (\<lambda>r. ps_page_path r = p) xs \<noteq> []" by simp
    from snoc.IH[OF this] False show ?thesis by (simp add: acc page_step_get_other)
  qed
qed

lemma page_loop_lastSeen:
  assumes "filter (\<lambda>r. ps_page_path r = p) rows \<noteq> []"
  shows "\<exists>e. map_get (fst (page_loop rows)) p = Some e \<and>
           lastSeen e = Some (last_seen (last (filter (\<lambda>r. ps_page_path r = p) rows)))"
  unfolding page_loop_def by (rule page_loop_lastSeen_acc[OF assms])

text \<open>
  C8, where the code departs from it. A page visited from a tablet at time 1 and from a
  desktop at time 2 has the rows \<^verbatim>\<open>desktop\<close> (last seen 2) and \<^verbatim>\<open>tablet\<close> (last seen 1), in
  this order; the entry of the page carries \<^verbatim>\<open>lastSeen\<close> 1, the time of the row processed
  last, and the maximum is 2.
\<close>

theorem getSiteStats_lastSeen_last_row:
  "map (\<lambda>r. (ps_page_path r, ps_device_type r, last_seen r))
     (stat_rows (run example_platform
        [RegisterSite ''abc12345'' None ''ownerX'' ''5ec2e7'' 0,
         RecordVisit ''abc12345'' None (Some ''tablet'') None None 1,
         RecordVisit ''abc12345'' None (Some ''desktop'') None None 2]) 1) =
     [(''/'', Desktop, 2), (''/'', Tablet, 1)] \<and>
   map_sum id (\<lambda>s. map (\<lambda>e. (page e, totalVisits e, lastSeen e)) (pages s))
     (getSiteStats (local_date example_platform)
        (run example_platform
          [RegisterSite ''abc12345'' None ''ownerX'' ''5ec2e7'' 0,
           RecordVisit ''abc12345'' None (Some ''tablet'') None None 1,
           RecordVisit ''abc12345'' None (Some ''desktop'') None None 2])
        ''abc12345'' ''ownerX'') =
     Inr [(''/'', 2, Some 1)]"
  by code_simp

end
